theory Spec2Isabelle
  imports Main "HOL-Library.AList" "HOL-Library.Product_Lexorder"
begin

section \<open>Python values used by the model\<close>

text \<open>
  A Python \<open>dict\<close> is an association list in insertion order; \<open>d[k] = v\<close> is
  \<^const>\<open>AList.update\<close> (an existing key keeps its place, a new key goes to the end),
  \<open>k in d\<close> and \<open>d[k]\<close> are \<^const>\<open>map_of\<close>, \<open>len(d)\<close> is \<^const>\<open>length\<close>.
  \<open>range(n)\<close> over Python's unbounded integers is empty for \<open>n \<le> 0\<close>.
\<close>

type_synonym ('k, 'v) dict = "('k \<times> 'v) list"

definition dict_contains :: "('k, 'v) dict \<Rightarrow> 'k \<Rightarrow> bool" where
  "dict_contains d k = (map_of d k \<noteq> None)"

definition py_range :: "int \<Rightarrow> int list" where
  "py_range n = [0..n - 1]"

datatype py_error = IndexError

section \<open>Tiling engine (spectralzk/tiling.py)\<close>

text \<open>
  \<open>Point\<close> is a dataclass with structural equality on \<open>(x, y)\<close>. The generator and the
  neighbourhood only ever add integers to integer coordinates, so coordinates are \<open>int\<close>.
\<close>

datatype point = Point (point_x: int) (point_y: int)

definition TILE_TYPES :: "string list" where
  "TILE_TYPES = [''A'', ''B'', ''C'', ''D'', ''E'', ''F'']"

text \<open>
  \<open>get_tile_type\<close>. The parameter \<open>hash8 seed pos\<close> stands for
  \<open>int(self._hash_position(pos.x, pos.y)[:8], 16)\<close>, the first eight hex digits of the MD5
  digest of the seeded, formatted position (hashlib is not part of the repository).
  \<open>neighbors\<close> is \<open>None\<close> or a list; \<open>if neighbors:\<close> is false for both \<open>None\<close> and \<open>[]\<close>.
\<close>

definition get_tile_type ::
  "(int \<Rightarrow> point \<Rightarrow> int) \<Rightarrow> int \<Rightarrow> point \<Rightarrow> string list option \<Rightarrow> string" where
  "get_tile_type hash8 seed pos neighbors =
     (let base_value = hash8 seed pos;
          base_value =
            (case neighbors of
               None \<Rightarrow> base_value
             | Some ns \<Rightarrow>
                 if ns = [] then base_value
                 else
                   let base_value =
                         (if length ns \<ge> 3 \<and> list_all (\<lambda>n. n = ns ! 0) ns
                          then base_value + 1 else base_value);
                       base_value =
                         (if ''A'' \<in> set ns \<and> ''B'' \<in> set ns
                          then base_value mod 2 + 2 else base_value)
                   in base_value)
      in TILE_TYPES ! nat (base_value mod int (length TILE_TYPES)))"

text \<open>
  \<open>distance_to\<close> compared with the default radius \<open>1.5\<close>: on integer coordinates
  \<open>sqrt d2 \<le> 1.5\<close> is \<open>4 * d2 \<le> 9\<close>, where \<open>d2\<close> is the squared distance.
\<close>

definition within_radius :: "point \<Rightarrow> point \<Rightarrow> bool" where
  "within_radius center other =
     (4 * ((point_x center - point_x other) * (point_x center - point_x other)
         + (point_y center - point_y other) * (point_y center - point_y other)) \<le> 9)"

definition get_neighbors :: "point \<Rightarrow> point list" where
  "get_neighbors center =
     [neighbor.
        dx \<leftarrow> [-1, 0, 1], dy \<leftarrow> [-1, 0, 1], \<not> (dx = 0 \<and> dy = 0),
        neighbor \<leftarrow> [Point (point_x center + dx) (point_y center + dy)],
        within_radius center neighbor]"

text \<open>The body of the inner loop of \<open>generate_region\<close>: one cell is placed.\<close>

definition place_tile ::
  "(int \<Rightarrow> point \<Rightarrow> int) \<Rightarrow> int \<Rightarrow> point \<Rightarrow> int \<Rightarrow> int \<Rightarrow> (point, string) dict
     \<Rightarrow> (point, string) dict" where
  "place_tile hash8 seed origin y x tiles =
     (let pos = Point (point_x origin + x) (point_y origin + y);
          neighbors = get_neighbors pos;
          neighbor_types = List.map_filter (map_of tiles) neighbors;
          tile_type = get_tile_type hash8 seed pos (Some neighbor_types)
      in AList.update pos tile_type tiles)"

definition generate_region ::
  "(int \<Rightarrow> point \<Rightarrow> int) \<Rightarrow> int \<Rightarrow> int \<Rightarrow> int \<Rightarrow> point option \<Rightarrow> (point, string) dict" where
  "generate_region hash8 seed width height origin =
     (let origin = (case origin of None \<Rightarrow> Point 0 0 | Some p \<Rightarrow> p)
      in fold (\<lambda>y tiles. fold (place_tile hash8 seed origin y) (py_range width) tiles)
           (py_range height) [])"

section \<open>Commitment scheme (spectralzk/commitment.py)\<close>

text \<open>
  The values handed to \<open>Commitment.create\<close>: strings, and the JSON-serialisable values
  the protocol builds (integers, \<open>None\<close>, booleans, lists and tuples of values).
\<close>

datatype pyvalue =
    PyStr string
  | PyInt int
  | PyNone
  | PyBool bool
  | PyList "pyvalue list"
  | PyTuple "pyvalue list"

definition digit_char :: "nat \<Rightarrow> char" where
  "digit_char n = ''0123456789abcdef'' ! n"

fun dec_nat :: "nat \<Rightarrow> string" where
  "dec_nat n = (if n < 10 then [digit_char n] else dec_nat (n div 10) @ [digit_char (n mod 10)])"

declare dec_nat.simps [simp del]

definition py_str_int :: "int \<Rightarrow> string" where
  "py_str_int i = (if i < 0 then ''-'' @ dec_nat (nat (- i)) else dec_nat (nat i))"

text \<open>\<open>json.dumps\<close> with its defaults (\<open>ensure_ascii\<close>, separators \<open>", "\<close>).\<close>

definition json_escape_char :: "char \<Rightarrow> string" where
  "json_escape_char c =
     (if c = CHR 0x22 then [CHR 0x5C, CHR 0x22]
      else if c = CHR 0x5C then [CHR 0x5C, CHR 0x5C]
      else if c = CHR 0x0A then [CHR 0x5C, CHR ''n'']
      else if c = CHR 0x0D then [CHR 0x5C, CHR ''r'']
      else if c = CHR 0x09 then [CHR 0x5C, CHR ''t'']
      else if c = CHR 0x08 then [CHR 0x5C, CHR ''b'']
      else if c = CHR 0x0C then [CHR 0x5C, CHR ''f'']
      else if (of_char c :: nat) < 0x20 \<or> (of_char c :: nat) > 0x7E
        then [CHR 0x5C, CHR ''u'', CHR ''0'', CHR ''0'',
              digit_char ((of_char c :: nat) div 16), digit_char ((of_char c :: nat) mod 16)]
      else [c])"

fun join :: "string \<Rightarrow> string list \<Rightarrow> string" where
  "join sep [] = []"
| "join sep [s] = s"
| "join sep (s # t # ss) = s @ sep @ join sep (t # ss)"

fun json_dumps :: "pyvalue \<Rightarrow> string" where
  "json_dumps (PyStr s) = [CHR 0x22] @ concat (map json_escape_char s) @ [CHR 0x22]"
| "json_dumps (PyInt i) = py_str_int i"
| "json_dumps PyNone = ''null''"
| "json_dumps (PyBool b) = (if b then ''true'' else ''false'')"
| "json_dumps (PyList vs) = ''['' @ join '', '' (map json_dumps vs) @ '']''"
| "json_dumps (PyTuple vs) = ''['' @ join '', '' (map json_dumps vs) @ '']''"

text \<open>
  \<open>Commitment.create\<close>. \<open>sha256 data\<close> stands for
  \<open>hashlib.sha256(data.encode()).hexdigest()\<close>, and \<open>token\<close> for the value
  \<open>secrets.token_hex(16)\<close> returns when no nonce is given.
\<close>

definition commitment_create ::
  "(string \<Rightarrow> string) \<Rightarrow> string \<Rightarrow> pyvalue \<Rightarrow> string option \<Rightarrow> string \<times> string" where
  "commitment_create sha256 token val nonce =
     (let nonce = (case nonce of None \<Rightarrow> token | Some n \<Rightarrow> n);
          serialized = (case val of PyStr s \<Rightarrow> s | _ \<Rightarrow> json_dumps val);
          data = serialized @ ''||'' @ nonce;
          commitment = sha256 data
      in (commitment, nonce))"

definition commitment_verify ::
  "(string \<Rightarrow> string) \<Rightarrow> string \<Rightarrow> pyvalue \<Rightarrow> string \<Rightarrow> bool" where
  "commitment_verify sha256 commitment val nonce =
     (let (expected_commitment, _) = commitment_create sha256 [] val (Some nonce)
      in commitment = expected_commitment)"

section \<open>Protocol (spectralzk/protocol.py)\<close>

record Instance =
  inst_tiles :: "(point, string) dict"
  inst_size :: int
  inst_seed :: int

record Witness =
  wit_path :: "(point \<times> string) list"
  wit_commitment :: string
  wit_nonce :: string

record Challenge =
  ch_challenge_id :: string
  ch_positions :: "int list"
  ch_commitment :: string

record Response =
  resp_challenge_id :: string
  resp_revealed_steps :: "(int \<times> point option \<times> string option) list"
  resp_path_length :: int
  resp_commitment :: string
  resp_nonce :: string

definition create_instance :: "(int \<Rightarrow> point \<Rightarrow> int) \<Rightarrow> int \<Rightarrow> int \<Rightarrow> Instance" where
  "create_instance hash8 seed sz =
     (let tiles = generate_region hash8 seed sz sz None
      in \<lparr>inst_tiles = tiles, inst_size = sz, inst_seed = seed\<rparr>)"

text \<open>
  \<open>_find_path\<close>: the loop \<open>for _ in range(length)\<close> with its two \<open>break\<close>s. The test
  \<open>current not in tiles\<close> and the lookup \<open>tiles[current]\<close> are one \<open>case\<close>.
  After the stable sort by \<open>(p.x, p.y)\<close> the next position is \<open>valid_next[0]\<close>.
\<close>

fun find_path_loop ::
  "(point, string) dict \<Rightarrow> nat \<Rightarrow> point \<Rightarrow> point set \<Rightarrow> (point \<times> string) list
     \<Rightarrow> (point \<times> string) list" where
  "find_path_loop tiles 0 current visited path = path"
| "find_path_loop tiles (Suc k) current visited path =
     (case map_of tiles current of
        None \<Rightarrow> path
      | Some tile \<Rightarrow>
          if current \<in> visited then path
          else
            let path = path @ [(current, tile)];
                visited = insert current visited;
                neighbors = get_neighbors current;
                valid_next = filter (\<lambda>n. dict_contains tiles n \<and> n \<notin> visited) neighbors
            in if valid_next = [] then path
               else find_path_loop tiles k
                      (sort_key (\<lambda>p. (point_x p, point_y p)) valid_next ! 0) visited path)"

definition protocol_find_path ::
  "(point, string) dict \<Rightarrow> point \<Rightarrow> int \<Rightarrow> (point \<times> string) list" where
  "protocol_find_path tiles start len = find_path_loop tiles (nat len) start {} []"

text \<open>\<open>str(pos)\<close> of the dataclass, and \<open>random.choice\<close> on a raw random number.\<close>

definition point_str :: "point \<Rightarrow> string" where
  "point_str p = ''Point(x='' @ py_str_int (point_x p) @ '', y='' @ py_str_int (point_y p) @ '')''"

definition random_choice :: "nat \<Rightarrow> 'a list \<Rightarrow> py_error + 'a" where
  "random_choice raw xs = (if xs = [] then Inl IndexError else Inr (xs ! (raw mod length xs)))"

definition generate_witness ::
  "(string \<Rightarrow> string) \<Rightarrow> Instance \<Rightarrow> int \<Rightarrow> point option \<Rightarrow> nat \<Rightarrow> string
     \<Rightarrow> py_error + Witness" where
  "generate_witness sha256 inst path_length start raw token =
     (case (case start of
              None \<Rightarrow> random_choice raw (map fst (inst_tiles inst))
            | Some s \<Rightarrow> Inr s) of
        Inl e \<Rightarrow> Inl e
      | Inr start \<Rightarrow>
          let path = protocol_find_path (inst_tiles inst) start path_length;
              path_data = PyList (map (\<lambda>(pos, tile). PyTuple [PyStr (point_str pos), PyStr tile]) path);
              (commitment, nonce) = commitment_create sha256 token path_data None
          in Inr \<lparr>wit_path = path, wit_commitment = commitment, wit_nonce = nonce\<rparr>)"

text \<open>
  \<open>create_challenge\<close>. \<open>token\<close> is the value of \<open>secrets.token_hex(8)\<close>; \<open>draws k\<close> is the
  raw randomness of the \<open>k\<close>-th call of \<open>secrets.randbelow\<close>, which returns a number in
  \<open>[0, n)\<close>, every one of them possible.
\<close>

definition randbelow :: "nat \<Rightarrow> int \<Rightarrow> int" where
  "randbelow raw n = int (raw mod nat n)"

definition draw_position :: "(nat \<Rightarrow> nat) \<Rightarrow> int \<Rightarrow> nat \<Rightarrow> int list \<Rightarrow> int list" where
  "draw_position draws max_positions k positions =
     (let pos = randbelow (draws k) max_positions
      in if pos \<notin> set positions then positions @ [pos] else positions)"

definition create_challenge ::
  "Instance \<Rightarrow> string \<Rightarrow> int \<Rightarrow> string \<Rightarrow> (nat \<Rightarrow> nat) \<Rightarrow> Challenge" where
  "create_challenge inst commitment num_challenges token draws =
     (let challenge_id = token;
          max_positions = inst_size inst * inst_size inst;
          positions = fold (draw_position draws max_positions)
                        [0..<nat (min num_challenges max_positions)] []
      in \<lparr>ch_challenge_id = challenge_id, ch_positions = sort positions,
          ch_commitment = commitment\<rparr>)"

text \<open>
  \<open>respond_to_challenge\<close>. \<open>witness.path[pos_idx]\<close> is Python indexing: a negative index
  counts from the end and raises \<open>IndexError\<close> below \<open>-len\<close>.
\<close>

definition py_index :: "'a list \<Rightarrow> int \<Rightarrow> py_error + 'a" where
  "py_index xs i =
     (let n = int (length xs); j = (if i < 0 then i + n else i)
      in if 0 \<le> j \<and> j < n then Inr (xs ! nat j) else Inl IndexError)"

fun reveal_loop ::
  "(point \<times> string) list \<Rightarrow> int list \<Rightarrow> (int \<times> point option \<times> string option) list
     \<Rightarrow> py_error + (int \<times> point option \<times> string option) list" where
  "reveal_loop path [] revealed_steps = Inr revealed_steps"
| "reveal_loop path (pos_idx # rest) revealed_steps =
     (if pos_idx < int (length path) then
        (case py_index path pos_idx of
           Inl e \<Rightarrow> Inl e
         | Inr (pos, tile) \<Rightarrow>
             reveal_loop path rest (revealed_steps @ [(pos_idx, Some pos, Some tile)]))
      else reveal_loop path rest (revealed_steps @ [(pos_idx, None, None)]))"

definition respond_to_challenge :: "Witness \<Rightarrow> Challenge \<Rightarrow> py_error + Response" where
  "respond_to_challenge witness challenge =
     (case reveal_loop (wit_path witness) (ch_positions challenge) [] of
        Inl e \<Rightarrow> Inl e
      | Inr revealed_steps \<Rightarrow>
          Inr \<lparr>resp_challenge_id = ch_challenge_id challenge,
               resp_revealed_steps = revealed_steps,
               resp_path_length = int (length (wit_path witness)),
               resp_commitment = wit_commitment witness,
               resp_nonce = wit_nonce witness\<rparr>)"

text \<open>
  \<open>verify_response\<close>. The dict comprehension \<open>revealed_map\<close> keeps one entry per index, the
  last one given. \<open>reveal_ok\<close> is the block of three checks both loops run on a revealed
  pair: neither part is \<open>None\<close>, the point is a key of the instance, the labels agree.
\<close>

definition build_revealed_map ::
  "(int \<times> point option \<times> string option) list \<Rightarrow> (int, point option \<times> string option) dict" where
  "build_revealed_map revealed_steps =
     fold (\<lambda>(pos_idx, pos, claimed_tile) m. AList.update pos_idx (pos, claimed_tile) m)
       revealed_steps []"

definition reveal_ok :: "(point, string) dict \<Rightarrow> point option \<Rightarrow> string option \<Rightarrow> bool" where
  "reveal_ok tiles pos claimed_tile =
     (case pos of
        None \<Rightarrow> False
      | Some p \<Rightarrow>
          (case claimed_tile of
             None \<Rightarrow> False
           | Some t \<Rightarrow>
               (case map_of tiles p of
                  None \<Rightarrow> False
                | Some tile \<Rightarrow> \<not> (tile \<noteq> t))))"

fun check_challenged ::
  "(point, string) dict \<Rightarrow> int \<Rightarrow> (int, point option \<times> string option) dict \<Rightarrow> int list \<Rightarrow> bool" where
  "check_challenged tiles path_length revealed_map [] = True"
| "check_challenged tiles path_length revealed_map (pos_idx # rest) =
     (if pos_idx < path_length then
        (case map_of revealed_map pos_idx of
           None \<Rightarrow> False
         | Some (pos, claimed_tile) \<Rightarrow>
             if \<not> reveal_ok tiles pos claimed_tile then False
             else check_challenged tiles path_length revealed_map rest)
      else check_challenged tiles path_length revealed_map rest)"

fun check_revealed ::
  "(point, string) dict \<Rightarrow> int \<Rightarrow> int list \<Rightarrow> (int, point option \<times> string option) dict \<Rightarrow> bool" where
  "check_revealed tiles path_length positions [] = True"
| "check_revealed tiles path_length positions ((pos_idx, pos, claimed_tile) # rest) =
     (if pos_idx < path_length then
        (if pos_idx \<notin> set positions then False
         else if \<not> reveal_ok tiles pos claimed_tile then False
         else check_revealed tiles path_length positions rest)
      else check_revealed tiles path_length positions rest)"

definition verify_response :: "Instance \<Rightarrow> Challenge \<Rightarrow> Response \<Rightarrow> bool" where
  "verify_response inst challenge response =
     (if resp_challenge_id response \<noteq> ch_challenge_id challenge then False
      else if resp_commitment response \<noteq> ch_commitment challenge then False
      else
        let revealed_map = build_revealed_map (resp_revealed_steps response)
        in if \<not> check_challenged (inst_tiles inst) (resp_path_length response) revealed_map
                  (ch_positions challenge) then False
           else if \<not> check_revealed (inst_tiles inst) (resp_path_length response)
                  (ch_positions challenge) revealed_map then False
           else if resp_path_length response < 0
                 \<or> resp_path_length response > int (length (inst_tiles inst)) then False
           else True)"

section \<open>The specification's wording, and concrete inputs\<close>

text \<open>
  The tile rule as the specification words it: the increment for three or more equal
  neighbour labels, then the overwrite with \<open>base mod 2 + 2\<close> when both \<open>A\<close> and \<open>B\<close>
  occur, and the label at the value modulo six.
\<close>

definition tile_rule_spec :: "int \<Rightarrow> string list \<Rightarrow> string" where
  "tile_rule_spec base ns =
     (let v = (if 3 \<le> length ns \<and> (\<forall>n \<in> set ns. n = hd ns) then base + 1 else base);
          v = (if ''A'' \<in> set ns \<and> ''B'' \<in> set ns then base mod 2 + 2 else v)
      in TILE_TYPES ! nat (v mod 6))"

text \<open>The string \<open>Commitment.create\<close> hashes for a value and a nonce.\<close>

definition commit_data :: "pyvalue \<Rightarrow> string \<Rightarrow> string" where
  "commit_data val nonce = (case val of PyStr s \<Rightarrow> s | _ \<Rightarrow> json_dumps val) @ ''||'' @ nonce"

text \<open>
  Concrete inputs for the closed examples: a position hash, a digest function, a random
  source that repeats one outcome, and a small protocol run.
\<close>

definition demo_hash8 :: "int \<Rightarrow> point \<Rightarrow> int" where
  "demo_hash8 seed p = seed + 7 * point_x p + 3 * point_y p"

definition demo_sha256 :: "string \<Rightarrow> string" where
  "demo_sha256 data = data"

definition repeated_draws :: "nat \<Rightarrow> nat" where
  "repeated_draws k = 0"

definition demo_instance :: Instance where
  "demo_instance = create_instance demo_hash8 42 2"

definition demo_challenge :: Challenge where
  "demo_challenge = \<lparr>ch_challenge_id = ''id'', ch_positions = [0], ch_commitment = ''c''\<rparr>"

definition demo_response :: Response where
  "demo_response =
     \<lparr>resp_challenge_id = ''id'',
      resp_revealed_steps = [(0, Some (Point 0 0), Some ''A'')],
      resp_path_length = 1, resp_commitment = ''c'', resp_nonce = ''n''\<rparr>"

definition demo_response_missing :: Response where
  "demo_response_missing = demo_response\<lparr>resp_revealed_steps := []\<rparr>"

definition demo_response_extra :: Response where
  "demo_response_extra =
     demo_response\<lparr>resp_revealed_steps :=
                      [(0, Some (Point 0 0), Some ''A''), (1, Some (Point 1 0), Some ''B'')],
                    resp_path_length := 2\<rparr>"

definition demo_response_duplicate :: Response where
  "demo_response_duplicate =
     demo_response\<lparr>resp_revealed_steps :=
                      [(0, Some (Point 0 0), Some ''A''), (0, Some (Point 0 0), Some ''A'')]\<rparr>"

definition demo_response_shadowed :: Response where
  "demo_response_shadowed =
     demo_response\<lparr>resp_revealed_steps :=
                      [(0, Some (Point 9 9), Some ''Z''), (0, None, None),
                       (0, Some (Point 0 0), Some ''A'')]\<rparr>"

definition spread_draws :: "nat \<Rightarrow> nat" where
  "spread_draws k = 3 * k + 1"

section \<open>Concrete runs\<close>

lemma demo_instance_tiles:
  "inst_tiles demo_instance =
     [(Point 0 0, ''A''), (Point 1 0, ''B''), (Point 0 1, ''D''), (Point 1 1, ''C'')]"
  unfolding demo_instance_def by code_simp

lemma demo_accepts: "verify_response demo_instance demo_challenge demo_response"
  by (simp add: verify_response_def demo_instance_tiles demo_challenge_def demo_response_def
      build_revealed_map_def reveal_ok_def)

section \<open>Verification ignores the nonce\<close>

text \<open>
  C9. For every instance and challenge, two responses that differ only in their nonce get
  the same verdict from \<open>verify_response\<close>.
\<close>

theorem verify_response_ignores_nonce:
  "verify_response inst challenge (response\<lparr>resp_nonce := nonce'\<rparr>)
     = verify_response inst challenge response"
  by (simp add: verify_response_def)

theorem verify_response_ignores_nonce_witness:
  "verify_response demo_instance demo_challenge (demo_response\<lparr>resp_nonce := ''other''\<rparr>)
     = verify_response demo_instance demo_challenge demo_response
   \<and> verify_response demo_instance demo_challenge (demo_response\<lparr>resp_nonce := ''other''\<rparr>)"
  using verify_response_ignores_nonce [of demo_instance demo_challenge "''other''" demo_response]
    demo_accepts by simp

section \<open>The tile rule\<close>

lemma length_TILE_TYPES: "int (length TILE_TYPES) = 6"
  by (simp add: TILE_TYPES_def)

lemma all_same_not_both:
  assumes "list_all (\<lambda>n. n = ns ! 0) ns" "a \<in> set ns" "b \<in> set ns"
  shows "a = b"
  using assms unfolding list_all_iff by metis

lemma tile_label_CD:
  fixes v :: int
  shows "TILE_TYPES ! nat ((v mod 2 + 2) mod 6) \<in> {''C'', ''D''}"
proof -
  have "v mod 2 = 0 \<or> v mod 2 = 1" by presburger
  then show ?thesis by (auto simp: TILE_TYPES_def)
qed

text \<open>
  C5. \<open>get_tile_type\<close> computes the rule of the specification: the increment when three or
  more supplied labels are all equal, the overwrite with \<open>base mod 2 + 2\<close> when both \<open>A\<close> and
  \<open>B\<close> are supplied (the two guards exclude each other, so the overwrite always reads the
  hash value itself), the label at the value modulo six; and with both \<open>A\<close> and \<open>B\<close> the
  label is \<open>C\<close> or \<open>D\<close>.
\<close>

theorem get_tile_type_rules:
  "get_tile_type hash8 seed pos (Some ns) = tile_rule_spec (hash8 seed pos) ns
   \<and> get_tile_type hash8 seed pos None = TILE_TYPES ! nat (hash8 seed pos mod 6)
   \<and> (''A'' \<in> set ns \<and> ''B'' \<in> set ns \<longrightarrow>
        get_tile_type hash8 seed pos (Some ns) \<in> {''C'', ''D''})"
proof -
  define b where "b = hash8 seed pos"
  define r1 where "r1 \<longleftrightarrow> 3 \<le> length ns \<and> list_all (\<lambda>n. n = ns ! 0) ns"
  define r2 where "r2 \<longleftrightarrow> ''A'' \<in> set ns \<and> ''B'' \<in> set ns"
  have excl: "\<not> (r1 \<and> r2)"
    using all_same_not_both [of ns "''A''" "''B''"] by (auto simp: r1_def r2_def)
  have code: "get_tile_type hash8 seed pos (Some ns) =
      TILE_TYPES ! nat ((if r2 then (if r1 then b + 1 else b) mod 2 + 2
                         else (if r1 then b + 1 else b)) mod 6)"
  proof (cases "ns = []")
    case True
    then show ?thesis
      by (simp add: get_tile_type_def length_TILE_TYPES r1_def r2_def b_def)
  next
    case False
    then show ?thesis
      by (simp add: get_tile_type_def length_TILE_TYPES Let_def r1_def r2_def b_def)
  qed
  have r1_spec: "r1 \<longleftrightarrow> 3 \<le> length ns \<and> (\<forall>n \<in> set ns. n = hd ns)"
    by (cases ns) (auto simp: r1_def list_all_iff)
  have spec: "tile_rule_spec b ns =
      TILE_TYPES ! nat ((if r2 then b mod 2 + 2 else (if r1 then b + 1 else b)) mod 6)"
    unfolding tile_rule_spec_def Let_def r1_spec [symmetric] r2_def [symmetric] by simp
  have eq: "get_tile_type hash8 seed pos (Some ns) = tile_rule_spec b ns"
    using excl unfolding code spec by (cases r1; cases r2) simp_all
  have none: "get_tile_type hash8 seed pos None = TILE_TYPES ! nat (b mod 6)"
    by (simp add: get_tile_type_def length_TILE_TYPES b_def)
  have cd: "get_tile_type hash8 seed pos (Some ns) \<in> {''C'', ''D''}" if r2
    using that tile_label_CD [of "if r1 then b + 1 else b"] unfolding code by simp
  from eq none cd show ?thesis unfolding b_def r2_def by blast
qed

theorem get_tile_type_rules_witness:
  "get_tile_type demo_hash8 42 (Point 1 1) (Some [''A'', ''B'', ''D''])
     = tile_rule_spec (demo_hash8 42 (Point 1 1)) [''A'', ''B'', ''D'']
   \<and> get_tile_type demo_hash8 42 (Point 1 1) None = ''E''
   \<and> get_tile_type demo_hash8 42 (Point 1 1) (Some [''A'', ''B'', ''D'']) = ''C''
   \<and> get_tile_type demo_hash8 42 (Point 0 0) (Some [''B'', ''B'', ''B'']) = ''B''"
  using get_tile_type_rules [of demo_hash8 42 "Point 1 1" "[''A'', ''B'', ''D'']"]
  by (simp add: get_tile_type_def demo_hash8_def TILE_TYPES_def)

section \<open>The commitment scheme\<close>

lemma commitment_verify_iff:
  "commitment_verify sha256 c v n \<longleftrightarrow> c = sha256 (commit_data v n)"
  by (simp add: commitment_verify_def commitment_create_def commit_data_def)

lemma commitment_create_fst:
  "fst (commitment_create sha256 token v (Some n)) = sha256 (commit_data v n)"
  by (simp add: commitment_create_def commit_data_def)

lemma commit_data_nonce: "n' \<noteq> n \<Longrightarrow> commit_data v n' \<noteq> commit_data v n"
  by (simp add: commit_data_def)

lemma commit_data_str_int: "commit_data (PyStr ''1'') n = commit_data (PyInt 1) n"
  by (simp add: commit_data_def py_str_int_def dec_nat.simps digit_char_def)

text \<open>
  C6, as amended. \<open>Commitment.verify(c, v, n)\<close> is true iff \<open>c\<close> is the commitment that
  \<open>Commitment.create(v, n)\<close> returns. From an accepting triple, another \<open>c\<close> is rejected;
  another nonce, or a value whose hashed string differs, is rejected unless the two
  different strings have the same digest (an accepted change is a collision of the hash);
  any changed pair whose digest differs is rejected. A value that serialises to the same
  string is accepted all the same: the integer \<open>1\<close> and the string \<open>"1"\<close> open the
  same commitments.
\<close>

theorem commitment_verify_correct:
  "(commitment_verify sha256 c v n
      \<longleftrightarrow> c = fst (commitment_create sha256 token v (Some n)))
   \<and> (commitment_verify sha256 c v n \<and> c' \<noteq> c \<longrightarrow> \<not> commitment_verify sha256 c' v n)
   \<and> (commitment_verify sha256 c v n \<and> n' \<noteq> n \<and> commitment_verify sha256 c v n' \<longrightarrow>
        commit_data v n' \<noteq> commit_data v n
        \<and> sha256 (commit_data v n') = sha256 (commit_data v n))
   \<and> (commitment_verify sha256 c v n \<and> commit_data v' n \<noteq> commit_data v n
        \<and> commitment_verify sha256 c v' n \<longrightarrow>
        sha256 (commit_data v' n) = sha256 (commit_data v n))
   \<and> (commitment_verify sha256 c v n
        \<and> sha256 (commit_data v' n') \<noteq> sha256 (commit_data v n) \<longrightarrow>
        \<not> commitment_verify sha256 c v' n')
   \<and> (commitment_verify sha256 c (PyInt 1) n \<longleftrightarrow> commitment_verify sha256 c (PyStr ''1'') n)"
  using commit_data_nonce [of n' n v] commit_data_str_int [of n]
  by (auto simp: commitment_verify_iff commitment_create_fst)

theorem commitment_verify_correct_witness:
  "commitment_verify demo_sha256 ''x||n1'' (PyStr ''x'') ''n1''
   \<and> \<not> commitment_verify demo_sha256 ''y||n1'' (PyStr ''x'') ''n1''
   \<and> \<not> commitment_verify demo_sha256 ''x||n1'' (PyStr ''x'') ''n2''
   \<and> \<not> commitment_verify demo_sha256 ''x||n1'' (PyInt 7) ''n1''"
  using commitment_verify_correct
    [of demo_sha256 "''x||n1''" "PyStr ''x''" "''n1''" "[]" "''y||n1''" "''n2''" "PyInt 7"]
  by (simp add: commitment_create_def commit_data_def demo_sha256_def Let_def
      py_str_int_def dec_nat.simps digit_char_def)

text \<open>
  C6 as stated fails: changing the value alone, from the string \<open>"1"\<close> to the integer \<open>1\<close>,
  leaves an accepting triple accepting, since both serialise to \<open>1\<close>.
\<close>

theorem commitment_verify_value_counterexample:
  "commitment_verify demo_sha256
     (fst (commitment_create demo_sha256 [] (PyStr ''1'') (Some ''ab''))) (PyStr ''1'') ''ab''
   \<and> PyInt 1 \<noteq> PyStr ''1''
   \<and> commitment_verify demo_sha256
     (fst (commitment_create demo_sha256 [] (PyStr ''1'') (Some ''ab''))) (PyInt 1) ''ab''"
  by (simp add: commitment_verify_def commitment_create_def demo_sha256_def Let_def
      py_str_int_def dec_nat.simps digit_char_def)

section \<open>The verification predicate\<close>

lemma build_revealed_map_fold:
  "build_revealed_map steps = fold (case_prod AList.update) steps []"
  by (simp add: build_revealed_map_def)

lemma fold_update_keys:
  "fst ` set (fold (case_prod AList.update) steps m) = fst ` set m \<union> fst ` set steps"
proof (induction steps arbitrary: m)
  case Nil
  then show ?case by simp
next
  case (Cons s steps)
  obtain i v where s: "s = (i, v)" by (cases s)
  show ?case using Cons [of "AList.update i v m"] by (auto simp: s AList.dom_update)
qed

lemma build_revealed_map_keys: "fst ` set (build_revealed_map steps) = fst ` set steps"
  by (simp add: build_revealed_map_fold fold_update_keys)

lemma set_update_subset: "set (AList.update k v m) \<subseteq> insert (k, v) (set m)"
  by (induction m) auto

lemma fold_update_subset:
  "set (fold (case_prod AList.update) steps m) \<subseteq> set m \<union> set steps"
proof (induction steps arbitrary: m)
  case Nil
  then show ?case by simp
next
  case (Cons s steps)
  obtain i v where s: "s = (i, v)" by (cases s)
  from Cons [of "AList.update i v m"] set_update_subset [of i v m]
  show ?case by (auto simp: s)
qed

lemma build_revealed_map_subset: "set (build_revealed_map steps) \<subseteq> set steps"
  using fold_update_subset [of steps "[]"] by (simp add: build_revealed_map_fold)

lemma check_challenged_iff:
  "check_challenged tiles path_length revealed_map positions \<longleftrightarrow>
     (\<forall>i \<in> set positions. i < path_length \<longrightarrow>
        (\<exists>p t. map_of revealed_map i = Some (p, t) \<and> reveal_ok tiles p t))"
  by (induction positions) (auto split: option.splits)

lemma check_revealed_iff:
  "check_revealed tiles path_length positions revealed_map \<longleftrightarrow>
     (\<forall>(i, p, t) \<in> set revealed_map. i < path_length \<longrightarrow>
        i \<in> set positions \<and> reveal_ok tiles p t)"
  by (induction revealed_map) (auto split: if_splits)

text \<open>
  C2. If a response has no entry for some challenged index below its \<open>path_length\<close>, or has
  an entry whose index is below \<open>path_length\<close> and is not challenged, \<open>verify_response\<close>
  returns false (whatever the identifiers, the commitment and the path length are).
\<close>

theorem verify_response_coverage:
  assumes "(\<exists>i \<in> set (ch_positions challenge).
              i < resp_path_length response \<and> i \<notin> fst ` set (resp_revealed_steps response))
         \<or> (\<exists>(i, p, t) \<in> set (resp_revealed_steps response).
              i < resp_path_length response \<and> i \<notin> set (ch_positions challenge))"
  shows "\<not> verify_response inst challenge response"
  using assms
proof
  assume "\<exists>i \<in> set (ch_positions challenge).
            i < resp_path_length response \<and> i \<notin> fst ` set (resp_revealed_steps response)"
  then obtain i where i: "i \<in> set (ch_positions challenge)" "i < resp_path_length response"
    "i \<notin> fst ` set (resp_revealed_steps response)" by blast
  from i(3) have "map_of (build_revealed_map (resp_revealed_steps response)) i = None"
    by (simp add: map_of_eq_None_iff build_revealed_map_keys)
  with i(1,2) have "\<not> check_challenged (inst_tiles inst) (resp_path_length response)
      (build_revealed_map (resp_revealed_steps response)) (ch_positions challenge)"
    unfolding check_challenged_iff by force
  then show ?thesis by (simp add: verify_response_def)
next
  assume "\<exists>(i, p, t) \<in> set (resp_revealed_steps response).
            i < resp_path_length response \<and> i \<notin> set (ch_positions challenge)"
  then obtain i p t where i: "(i, p, t) \<in> set (resp_revealed_steps response)"
    "i < resp_path_length response" "i \<notin> set (ch_positions challenge)" by blast
  from i(1) have "i \<in> fst ` set (build_revealed_map (resp_revealed_steps response))"
    unfolding build_revealed_map_keys by force
  then obtain p' t' where "(i, p', t') \<in> set (build_revealed_map (resp_revealed_steps response))"
    by auto
  with i(2,3) have "\<not> check_revealed (inst_tiles inst) (resp_path_length response)
      (ch_positions challenge) (build_revealed_map (resp_revealed_steps response))"
    unfolding check_revealed_iff by force
  then show ?thesis by (simp add: verify_response_def)
qed

theorem verify_response_coverage_witness:
  "\<not> verify_response demo_instance demo_challenge demo_response_missing
   \<and> \<not> verify_response demo_instance demo_challenge demo_response_extra"
  using verify_response_coverage [of demo_challenge demo_response_missing demo_instance]
    verify_response_coverage [of demo_challenge demo_response_extra demo_instance]
  by (simp add: demo_challenge_def demo_response_missing_def demo_response_extra_def
      demo_response_def)

text \<open>
  C3. A response that gives two entries for one challenged index below \<open>path_length\<close>
  has an extra revealed step and is to be rejected. The code accepts it: with the instance
  of size \<open>2\<close>, the challenge at index \<open>0\<close> and the matching entry for index \<open>0\<close> given twice,
  \<open>verify_response\<close> returns true, because the dict comprehension \<open>revealed_map\<close> keeps one
  entry per index and both loops read the map, not \<open>revealed_steps\<close>.
\<close>

theorem verify_response_duplicate_accepted:
  "verify_response demo_instance demo_challenge demo_response_duplicate
   \<and> resp_revealed_steps demo_response_duplicate
       = [(0, Some (Point 0 0), Some ''A''), (0, Some (Point 0 0), Some ''A'')]
   \<and> length (filter (\<lambda>(i, p, t). i = 0) (resp_revealed_steps demo_response_duplicate)) = 2
   \<and> ch_positions demo_challenge = [0]
   \<and> resp_path_length demo_response_duplicate = 1"
  by (simp add: verify_response_def demo_instance_tiles demo_challenge_def demo_response_def
      demo_response_duplicate_def build_revealed_map_def reveal_ok_def)

text \<open>
  The same collapse hides entries that do not match the instance: a response whose first
  entries for index \<open>0\<close> name a point outside the instance and a missing pair is accepted
  as long as the last entry for the index matches.
\<close>

lemma verify_response_shadowed_accepted:
  "verify_response demo_instance demo_challenge demo_response_shadowed"
  by (simp add: verify_response_def demo_instance_tiles demo_challenge_def demo_response_def
      demo_response_shadowed_def build_revealed_map_def reveal_ok_def)

section \<open>Challenge creation\<close>

lemma randbelow_range: "0 < m \<Longrightarrow> 0 \<le> randbelow raw m \<and> randbelow raw m < m"
proof -
  assume m: "0 < m"
  then have "raw mod nat m < nat m" by simp
  then have "int (raw mod nat m) < int (nat m)" by (simp only: of_nat_less_iff)
  with m show ?thesis by (simp add: randbelow_def)
qed

lemma fold_draw_position_set:
  "set (fold (draw_position draws m) ks ps) = set ps \<union> (\<lambda>k. randbelow (draws k) m) ` set ks"
  by (induction ks arbitrary: ps) (auto simp: draw_position_def Let_def)

lemma fold_draw_position_distinct:
  "distinct ps \<Longrightarrow> distinct (fold (draw_position draws m) ks ps)"
  by (induction ks arbitrary: ps) (auto simp: draw_position_def Let_def)

lemma drawn_positions_length:
  "length (fold (draw_position draws m) [0..<c] []) = card ((\<lambda>k. randbelow (draws k) m) ` {0..<c})"
proof -
  have "distinct (fold (draw_position draws m) [0..<c] [])"
    by (rule fold_draw_position_distinct) simp
  then have "length (fold (draw_position draws m) [0..<c] [])
      = card (set (fold (draw_position draws m) [0..<c] []))"
    by (simp add: distinct_card)
  then show ?thesis by (simp add: fold_draw_position_set)
qed

lemma create_challenge_positions_eq:
  "ch_positions (create_challenge inst commitment n token draws)
     = sort (fold (draw_position draws (inst_size inst * inst_size inst))
               [0..<nat (min n (inst_size inst * inst_size inst))] [])"
  by (simp add: create_challenge_def Let_def)

lemma create_challenge_nonneg:
  assumes "p \<in> set (ch_positions (create_challenge inst commitment n token draws))"
  shows "0 \<le> p \<and> p < inst_size inst * inst_size inst"
proof -
  let ?m = "inst_size inst * inst_size inst"
  from assms obtain k where k: "k < nat (min n ?m)" "p = randbelow (draws k) ?m"
    by (auto simp: create_challenge_positions_eq fold_draw_position_set)
  from k(1) have "0 < ?m" by linarith
  with k(2) show ?thesis using randbelow_range by blast
qed

text \<open>
  C4, as amended. For an instance of size \<open>s \<ge> 1\<close> and \<open>n \<ge> 1\<close>, whatever the random draws,
  \<open>create_challenge\<close> draws \<open>min(n, s*s)\<close> times and returns the drawn values, each once,
  sorted ascending: the positions are distinct, in \<open>[0, s*s)\<close>, at least one and at most
  \<open>min(n, s*s)\<close> of them, with the commitment copied. A repeated draw is dropped and not
  drawn again, so there are exactly \<open>min(n, s*s)\<close> positions if and only if the draws are
  pairwise different.
\<close>

theorem create_challenge_positions:
  assumes "1 \<le> inst_size inst" and "1 \<le> n"
  shows "distinct (ch_positions (create_challenge inst commitment n token draws))
       \<and> sorted (ch_positions (create_challenge inst commitment n token draws))
       \<and> (\<forall>p \<in> set (ch_positions (create_challenge inst commitment n token draws)).
            0 \<le> p \<and> p < inst_size inst * inst_size inst)
       \<and> 1 \<le> length (ch_positions (create_challenge inst commitment n token draws))
       \<and> int (length (ch_positions (create_challenge inst commitment n token draws)))
            \<le> min n (inst_size inst * inst_size inst)
       \<and> set (ch_positions (create_challenge inst commitment n token draws))
           = (\<lambda>k. randbelow (draws k) (inst_size inst * inst_size inst))
               ` {0..<nat (min n (inst_size inst * inst_size inst))}
       \<and> (int (length (ch_positions (create_challenge inst commitment n token draws)))
              = min n (inst_size inst * inst_size inst)
            \<longleftrightarrow> inj_on (\<lambda>k. randbelow (draws k) (inst_size inst * inst_size inst))
                  {0..<nat (min n (inst_size inst * inst_size inst))})
       \<and> ch_commitment (create_challenge inst commitment n token draws) = commitment"
proof -
  let ?m = "inst_size inst * inst_size inst"
  let ?c = "nat (min n ?m)"
  let ?g = "\<lambda>k. randbelow (draws k) ?m"
  let ?ps = "ch_positions (create_challenge inst commitment n token draws)"
  from assms(1) have "1 * 1 \<le> ?m" by (intro mult_mono) simp_all
  then have m: "1 \<le> ?m" by simp
  with assms(2) have c: "1 \<le> ?c" "int ?c = min n ?m" by simp_all
  have len: "length ?ps = card (?g ` {0..<?c})"
    by (simp add: create_challenge_positions_eq drawn_positions_length)
  have d: "distinct ?ps"
    by (simp add: create_challenge_positions_eq fold_draw_position_distinct)
  have s: "sorted ?ps" by (simp add: create_challenge_positions_eq)
  have r: "\<forall>p \<in> set ?ps. 0 \<le> p \<and> p < ?m"
    using create_challenge_nonneg by blast
  have "card (?g ` {0..<?c}) \<le> card {0..<?c}" by (rule card_image_le) simp
  then have "length ?ps \<le> ?c" using len by simp
  then have "int (length ?ps) \<le> int ?c" by (simp only: of_nat_le_iff)
  then have up: "int (length ?ps) \<le> min n ?m" unfolding c(2) .
  have "?g ` {0..<?c} \<noteq> {}" using c(1) by auto
  then have "0 < card (?g ` {0..<?c})" by (simp add: card_gt_0_iff)
  then have lo: "1 \<le> length ?ps" using len by simp
  have st: "set ?ps = ?g ` {0..<?c}"
    by (simp add: create_challenge_positions_eq fold_draw_position_set)
  have ex: "int (length ?ps) = min n ?m" if "inj_on ?g {0..<?c}"
  proof -
    from card_image [OF that] len have "length ?ps = ?c" by simp
    then have "int (length ?ps) = int ?c" by (simp only:)
    then show ?thesis unfolding c(2) .
  qed
  have only: "inj_on ?g {0..<?c}" if "int (length ?ps) = min n ?m"
  proof -
    from that have "int (length ?ps) = int ?c" unfolding c(2) .
    then have "length ?ps = ?c" by (simp only: of_nat_eq_iff)
    with len have "card (?g ` {0..<?c}) = card {0..<?c}" by simp
    then show ?thesis by (intro eq_card_imp_inj_on) simp_all
  qed
  have cm: "ch_commitment (create_challenge inst commitment n token draws) = commitment"
    by (simp add: create_challenge_def Let_def)
  from d s r lo up st ex only cm show ?thesis by blast
qed

lemma demo_instance_size: "inst_size demo_instance = 2"
  by (simp add: demo_instance_def create_instance_def)

lemma demo_repeated_positions:
  "ch_positions (create_challenge demo_instance ''c'' 2 ''id'' repeated_draws) = [0]"
  by (simp add: create_challenge_def demo_instance_size repeated_draws_def draw_position_def
      randbelow_def upt_rec)

lemma demo_spread_positions:
  "ch_positions (create_challenge demo_instance ''c'' 2 ''id'' spread_draws) = [0, 1]"
  by (simp add: create_challenge_def demo_instance_size spread_draws_def draw_position_def
      randbelow_def upt_rec)

lemma repeated_draws_not_inj:
  "\<not> inj_on (\<lambda>k. randbelow (repeated_draws k) 4) {0..<2}"
proof
  assume "inj_on (\<lambda>k. randbelow (repeated_draws k) 4) {0..<2}"
  then have "(0::nat) = 1" by (rule inj_onD) (simp_all add: repeated_draws_def)
  then show False by simp
qed

theorem create_challenge_positions_witness:
  "ch_positions (create_challenge demo_instance ''c'' 2 ''id'' repeated_draws) = [0]
   \<and> ch_commitment (create_challenge demo_instance ''c'' 2 ''id'' repeated_draws) = ''c''
   \<and> \<not> inj_on (\<lambda>k. randbelow (repeated_draws k) 4) {0..<2}
   \<and> ch_positions (create_challenge demo_instance ''c'' 2 ''id'' spread_draws) = [0, 1]
   \<and> inj_on (\<lambda>k. randbelow (spread_draws k) 4) {0..<2}"
  using create_challenge_positions [of demo_instance 2 "''c''" "''id''" repeated_draws]
    create_challenge_positions [of demo_instance 2 "''c''" "''id''" spread_draws]
    repeated_draws_not_inj
  by (simp add: demo_instance_size demo_repeated_positions demo_spread_positions)

text \<open>
  C4 as stated fails: with size \<open>2\<close> and \<open>n = 2\<close>, two equal draws give one position, not
  \<open>min(2, 4) = 2\<close>; the loop runs \<open>min(n, s*s)\<close> times and draws once each time.
\<close>

theorem create_challenge_count_counterexample:
  "inst_size demo_instance = 2
   \<and> ch_positions (create_challenge demo_instance ''c'' 2 ''id'' repeated_draws) = [0]
   \<and> int (length (ch_positions (create_challenge demo_instance ''c'' 2 ''id'' repeated_draws)))
       \<noteq> min 2 (inst_size demo_instance * inst_size demo_instance)"
  by (simp add: demo_instance_size demo_repeated_positions)

section \<open>Region generation\<close>

lemma set_py_range: "set (py_range n) = {0..<n}"
  by (auto simp: py_range_def)

lemma place_tile_keys:
  "fst ` set (place_tile hash8 seed origin y x tiles)
     = insert (Point (point_x origin + x) (point_y origin + y)) (fst ` set tiles)"
  by (simp add: place_tile_def Let_def AList.dom_update)

lemma place_tile_distinct:
  "distinct (map fst tiles) \<Longrightarrow> distinct (map fst (place_tile hash8 seed origin y x tiles))"
  by (simp add: place_tile_def Let_def AList.distinct_update)

lemma row_keys:
  "fst ` set (fold (place_tile hash8 seed origin y) xs tiles)
     = fst ` set tiles \<union> (\<lambda>x. Point (point_x origin + x) (point_y origin + y)) ` set xs"
  by (induction xs arbitrary: tiles) (auto simp: place_tile_keys)

lemma row_distinct:
  "distinct (map fst tiles) \<Longrightarrow> distinct (map fst (fold (place_tile hash8 seed origin y) xs tiles))"
  by (induction xs arbitrary: tiles) (simp_all add: place_tile_distinct)

lemma rows_keys:
  "fst ` set (fold (\<lambda>y tiles. fold (place_tile hash8 seed origin y) xs tiles) ys tiles)
     = fst ` set tiles
       \<union> {Point (point_x origin + x) (point_y origin + y) | x y. x \<in> set xs \<and> y \<in> set ys}"
  by (induction ys arbitrary: tiles) (auto simp: row_keys)

lemma rows_distinct:
  "distinct (map fst tiles) \<Longrightarrow>
   distinct (map fst (fold (\<lambda>y tiles. fold (place_tile hash8 seed origin y) xs tiles) ys tiles))"
  by (induction ys arbitrary: tiles) (simp_all add: row_distinct)

lemma generate_region_keys:
  "fst ` set (generate_region hash8 seed w h None)
     = {Point x y | x y. 0 \<le> x \<and> x < w \<and> 0 \<le> y \<and> y < h}"
  by (simp add: generate_region_def rows_keys set_py_range)

lemma generate_region_distinct: "distinct (map fst (generate_region hash8 seed w h origin))"
  by (simp add: generate_region_def Let_def rows_distinct)

lemma card_grid: "card {Point x y | x y. 0 \<le> x \<and> x < w \<and> 0 \<le> y \<and> y < h} = nat w * nat h"
proof -
  have "{Point x y | x y. 0 \<le> x \<and> x < w \<and> 0 \<le> y \<and> y < h}
      = (\<lambda>(x, y). Point x y) ` ({0..<w} \<times> {0..<h})"
    by auto
  moreover have "inj_on (\<lambda>(x, y). Point x y) ({0..<w} \<times> {0..<h})"
    by (auto simp: inj_on_def)
  ultimately show ?thesis by (simp add: card_image card_cartesian_product)
qed

lemma generate_region_length:
  "length (generate_region hash8 seed w h None) = nat w * nat h"
proof -
  have "length (generate_region hash8 seed w h None)
      = length (map fst (generate_region hash8 seed w h None))" by simp
  also have "\<dots> = card (set (map fst (generate_region hash8 seed w h None)))"
    using generate_region_distinct by (simp only: distinct_card)
  also have "\<dots> = nat w * nat h"
    by (simp only: set_map generate_region_keys card_grid)
  finally show ?thesis .
qed

text \<open>
  C8. For \<open>w \<ge> 0\<close> and \<open>h \<ge> 0\<close>, \<open>generate_region(w, h)\<close> with the default origin has
  exactly \<open>w * h\<close> entries, its keys are pairwise different and are exactly the grid points
  \<open>(x, y)\<close> with \<open>0 \<le> x < w\<close> and \<open>0 \<le> y < h\<close>; so \<open>create_instance(size)\<close> has
  \<open>size * size\<close> tiles.
\<close>

theorem generate_region_coverage:
  assumes "0 \<le> w" and "0 \<le> h"
  shows "int (length (generate_region hash8 seed w h None)) = w * h
       \<and> distinct (map fst (generate_region hash8 seed w h None))
       \<and> fst ` set (generate_region hash8 seed w h None)
           = {Point x y | x y. 0 \<le> x \<and> x < w \<and> 0 \<le> y \<and> y < h}
       \<and> int (length (inst_tiles (create_instance hash8 seed w))) = w * w
       \<and> inst_size (create_instance hash8 seed w) = w"
proof -
  from assms have "int (nat w * nat h) = w * h" by simp
  then have len: "int (length (generate_region hash8 seed w h None)) = w * h"
    by (simp only: generate_region_length)
  from assms(1) have "int (nat w * nat w) = w * w" by simp
  then have "int (length (generate_region hash8 seed w w None)) = w * w"
    by (simp only: generate_region_length)
  then have inst: "int (length (inst_tiles (create_instance hash8 seed w))) = w * w
      \<and> inst_size (create_instance hash8 seed w) = w"
    by (simp add: create_instance_def)
  with len generate_region_distinct generate_region_keys show ?thesis by blast
qed

theorem generate_region_coverage_witness:
  "int (length (generate_region demo_hash8 42 2 2 None)) = 4
   \<and> fst ` set (generate_region demo_hash8 42 2 2 None)
       = {Point 0 0, Point 1 0, Point 0 1, Point 1 1}
   \<and> length (inst_tiles demo_instance) = 4"
  using generate_region_coverage [of 2 2 demo_hash8 42] demo_instance_tiles
  by (simp add: demo_instance_def create_instance_def)

section \<open>The witness path\<close>

lemma find_path_loop_invariant:
  assumes "distinct (map fst path)" and "fst ` set path \<subseteq> visited"
    and "\<forall>(p, l) \<in> set path. map_of tiles p = Some l"
  shows "distinct (map fst (find_path_loop tiles k current visited path))
       \<and> (\<forall>(p, l) \<in> set (find_path_loop tiles k current visited path). map_of tiles p = Some l)"
  using assms
proof (induction k arbitrary: current visited path)
  case 0
  then show ?case by simp
next
  case (Suc k)
  show ?case
  proof (cases "map_of tiles current")
    case None
    with Suc.prems show ?thesis by simp
  next
    case (Some tile)
    show ?thesis
    proof (cases "current \<in> visited")
      case True
      with Some Suc.prems show ?thesis by simp
    next
      case False
      let ?path = "path @ [(current, tile)]"
      let ?visited = "insert current visited"
      from False Suc.prems(2) have fresh: "current \<notin> fst ` set path" by blast
      with Suc.prems(1) have d: "distinct (map fst ?path)" by simp
      from Suc.prems(2) have v: "fst ` set ?path \<subseteq> ?visited" by auto
      from Suc.prems(3) Some have t: "\<forall>(p, l) \<in> set ?path. map_of tiles p = Some l" by auto
      from d t Suc.IH [OF d v t] Some False show ?thesis by (simp add: Let_def)
    qed
  qed
qed

lemma find_path_loop_length:
  "length (find_path_loop tiles k current visited path) \<le> length path + k"
proof (induction k arbitrary: current visited path)
  case 0
  then show ?case by simp
next
  case (Suc k)
  have "length (find_path_loop tiles k c v (path @ [e])) \<le> Suc (length path + k)" for c v e
    using Suc [of c v "path @ [e]"] by simp
  then show ?case by (simp add: Let_def split: option.splits)
qed

lemma find_path_loop_no_start:
  "map_of tiles current = None \<Longrightarrow> find_path_loop tiles k current visited path = path"
  by (cases k) simp_all

lemma protocol_find_path_valid:
  "distinct (map fst (protocol_find_path tiles start len))
   \<and> (\<forall>(p, l) \<in> set (protocol_find_path tiles start len). map_of tiles p = Some l)"
  unfolding protocol_find_path_def by (rule find_path_loop_invariant) simp_all

lemma protocol_find_path_length_tiles:
  "length (protocol_find_path tiles start len) \<le> length tiles"
proof -
  let ?path = "protocol_find_path tiles start len"
  from protocol_find_path_valid [of tiles start len]
  have d: "distinct (map fst ?path)" and v: "\<forall>(p, l) \<in> set ?path. map_of tiles p = Some l"
    by blast+
  have "fst ` set ?path \<subseteq> fst ` set tiles"
  proof
    fix p assume "p \<in> fst ` set ?path"
    then obtain l where "(p, l) \<in> set ?path" by auto
    with v have "map_of tiles p = Some l" by blast
    then have "(p, l) \<in> set tiles" by (rule map_of_SomeD)
    then show "p \<in> fst ` set tiles" by force
  qed
  then have "card (fst ` set ?path) \<le> card (fst ` set tiles)" by (simp add: card_mono)
  moreover have "card (fst ` set ?path) = length ?path"
    using d distinct_card [of "map fst ?path"] by simp
  moreover have "card (fst ` set tiles) \<le> length tiles"
    using card_length [of "map fst tiles"] by simp
  ultimately show ?thesis by linarith
qed

lemma protocol_find_path_length_requested:
  "length (protocol_find_path tiles start len) \<le> nat len"
  using find_path_loop_length [of tiles "nat len" start "{}" "[]"]
  by (simp add: protocol_find_path_def)

lemma generate_witness_cases:
  "(start = None \<and> inst_tiles inst = []
      \<and> generate_witness digest inst path_length start raw token = Inl IndexError)
   \<or> (\<exists>s w. generate_witness digest inst path_length start raw token = Inr w
          \<and> wit_path w = protocol_find_path (inst_tiles inst) s path_length)"
  by (cases start)
    (auto simp: generate_witness_def random_choice_def Let_def split_def)

lemma generate_witness_given_start:
  "generate_witness digest inst path_length (Some s) raw token = Inr w \<Longrightarrow>
   wit_path w = protocol_find_path (inst_tiles inst) s path_length"
  by (auto simp: generate_witness_def Let_def split_def)

text \<open>
  C7. \<open>generate_witness\<close> returns a witness whose path has no repeated point and whose
  every entry is a key of the instance with the instance's label, for every instance,
  requested length and start point; it raises only when no start is given and the
  instance has no tile to choose from.
\<close>

theorem witness_path_invariant:
  "case generate_witness digest inst path_length start raw token of
     Inl e \<Rightarrow> start = None \<and> inst_tiles inst = []
   | Inr w \<Rightarrow>
       distinct (map fst (wit_path w))
       \<and> (\<forall>(p, l) \<in> set (wit_path w). map_of (inst_tiles inst) p = Some l)"
  using generate_witness_cases [of start inst digest path_length raw token]
proof (elim disjE conjE exE)
  assume "start = None" "inst_tiles inst = []"
    "generate_witness digest inst path_length start raw token = Inl IndexError"
  then show ?thesis by simp
next
  fix s w
  assume w: "generate_witness digest inst path_length start raw token = Inr w"
    "wit_path w = protocol_find_path (inst_tiles inst) s path_length"
  from protocol_find_path_valid [of "inst_tiles inst" s path_length] w
  show ?thesis by simp
qed

lemma demo_path:
  "protocol_find_path (inst_tiles demo_instance) (Point 0 0) 3
     = [(Point 0 0, ''A''), (Point 0 1, ''D''), (Point 1 0, ''B'')]"
  unfolding demo_instance_tiles by code_simp

theorem witness_path_invariant_witness:
  "(case generate_witness demo_sha256 demo_instance 3 (Some (Point 0 0)) 0 ''nn'' of
      Inl e \<Rightarrow> False
    | Inr w \<Rightarrow>
        wit_path w = [(Point 0 0, ''A''), (Point 0 1, ''D''), (Point 1 0, ''B'')]
        \<and> distinct (map fst (wit_path w)))"
  using witness_path_invariant [where digest = demo_sha256 and inst = demo_instance
      and path_length = 3 and start = "Some (Point 0 0)" and raw = 0 and token = "''nn''"]
  by (simp add: generate_witness_def Let_def split_def demo_path)

text \<open>
  C10. For every tiles mapping, start point and requested length \<open>L \<ge> 0\<close>, the path of
  \<open>_find_path\<close> has at most \<open>min(L, len(tiles))\<close> entries and is empty when the start is
  not a key of the tiles; the same holds for the path of a generated witness.
\<close>

theorem find_path_length_bound:
  assumes "0 \<le> L"
  shows "int (length (protocol_find_path tiles start L)) \<le> min L (int (length tiles))
       \<and> (map_of tiles start = None \<longrightarrow> protocol_find_path tiles start L = [])
       \<and> (generate_witness digest inst L start' raw token = Inr w \<longrightarrow>
            int (length (wit_path w)) \<le> min L (int (length (inst_tiles inst)))
            \<and> (\<forall>s. start' = Some s \<and> map_of (inst_tiles inst) s = None \<longrightarrow> wit_path w = []))"
proof -
  have bound: "int (length (protocol_find_path t s L)) \<le> min L (int (length t))" for t s
    using protocol_find_path_length_tiles [of t s L]
      protocol_find_path_length_requested [of t s L] assms
    by linarith
  have empty: "protocol_find_path t s L = []" if "map_of t s = None" for t s
    using that by (simp add: protocol_find_path_def find_path_loop_no_start)
  have "int (length (wit_path w)) \<le> min L (int (length (inst_tiles inst)))
      \<and> (\<forall>s. start' = Some s \<and> map_of (inst_tiles inst) s = None \<longrightarrow> wit_path w = [])"
    if "generate_witness digest inst L start' raw token = Inr w"
    using generate_witness_cases [of start' inst digest L raw token] that bound empty
      generate_witness_given_start [of digest inst L _ raw token w]
    by auto
  with bound empty show ?thesis by blast
qed

theorem find_path_length_bound_witness:
  "length (protocol_find_path (inst_tiles demo_instance) (Point 0 0) 3) = 3
   \<and> protocol_find_path (inst_tiles demo_instance) (Point 5 5) 3 = []
   \<and> length (inst_tiles demo_instance) = 4"
  using find_path_length_bound [where L = 3 and tiles = "inst_tiles demo_instance"
      and start = "Point 5 5" and digest = demo_sha256 and inst = demo_instance
      and start' = "Some (Point 5 5)" and raw = 0 and token = "''nn''"
      and w = "\<lparr>wit_path = [], wit_commitment = [], wit_nonce = []\<rparr>"]
  by (simp add: demo_path [unfolded demo_instance_tiles] demo_instance_tiles)

section \<open>Completeness\<close>

lemma py_index_nonneg:
  "0 \<le> i \<Longrightarrow> i < int (length xs) \<Longrightarrow> py_index xs i = Inr (xs ! nat i)"
  by (simp add: py_index_def Let_def)

lemma reveal_loop_honest:
  assumes "\<forall>i \<in> set positions. 0 \<le> i"
  shows "reveal_loop path positions revealed
    = Inr (revealed @ map (\<lambda>i. if i < int (length path)
                                 then (i, Some (fst (path ! nat i)), Some (snd (path ! nat i)))
                                 else (i, None, None)) positions)"
  using assms
proof (induction positions arbitrary: revealed)
  case Nil
  then show ?case by simp
next
  case (Cons i positions)
  then have i: "0 \<le> i" and rest: "\<forall>i \<in> set positions. 0 \<le> i" by simp_all
  show ?case
  proof (cases "i < int (length path)")
    case True
    with i have "py_index path i = Inr (path ! nat i)"
      by (simp add: py_index_nonneg)
    with True Cons.IH [OF rest] show ?thesis by (simp add: split_def)
  next
    case False
    with Cons.IH [OF rest] show ?thesis by simp
  qed
qed

lemma map_fst_tagged:
  "map fst (map (\<lambda>i. if c i then (i, a i) else (i, b i)) ps) = ps"
  by (induction ps) simp_all

lemma honest_response_accepted:
  assumes valid: "\<forall>(p, l) \<in> set path. map_of (inst_tiles inst) p = Some l"
    and len: "length path \<le> length (inst_tiles inst)"
    and nonneg: "\<forall>i \<in> set (ch_positions challenge). 0 \<le> i"
    and path: "wit_path witness = path"
    and comm: "wit_commitment witness = ch_commitment challenge"
  shows "\<exists>r. respond_to_challenge witness challenge = Inr r \<and> verify_response inst challenge r"
proof -
  let ?reveal = "\<lambda>i. if i < int (length path)
                      then (i, Some (fst (path ! nat i)), Some (snd (path ! nat i)))
                      else (i, None, None)"
  let ?steps = "map ?reveal (ch_positions challenge)"
  let ?r = "\<lparr>resp_challenge_id = ch_challenge_id challenge, resp_revealed_steps = ?steps,
             resp_path_length = int (length path), resp_commitment = wit_commitment witness,
             resp_nonce = wit_nonce witness\<rparr>"
  let ?m = "build_revealed_map ?steps"
  have resp: "respond_to_challenge witness challenge = Inr ?r"
    using reveal_loop_honest [OF nonneg, of path "[]"]
    by (simp add: respond_to_challenge_def path)
  have step: "i \<in> set (ch_positions challenge)
      \<and> (i < int (length path) \<longrightarrow> reveal_ok (inst_tiles inst) p t)"
    if "(i, p, t) \<in> set ?steps" for i p t
  proof -
    from that obtain j where j: "j \<in> set (ch_positions challenge)" "(i, p, t) = ?reveal j"
      by auto
    then have ij: "i = j" by (simp split: if_splits)
    have "reveal_ok (inst_tiles inst) p t" if lt: "i < int (length path)"
    proof -
      from nonneg j(1) ij have "0 \<le> i" by simp
      with lt have "path ! nat i \<in> set path" by simp
      moreover obtain p0 l0 where pl: "path ! nat i = (p0, l0)" by (cases "path ! nat i")
      ultimately have "(p0, l0) \<in> set path" by simp
      with valid have "map_of (inst_tiles inst) p0 = Some l0" by blast
      with pl have "map_of (inst_tiles inst) (fst (path ! nat i)) = Some (snd (path ! nat i))"
        by simp
      moreover from j(2) ij lt
      have "p = Some (fst (path ! nat i))" "t = Some (snd (path ! nat i))" by simp_all
      ultimately show ?thesis by (simp add: reveal_ok_def)
    qed
    with j(1) ij show ?thesis by simp
  qed
  have "map fst ?steps = ch_positions challenge" by (rule map_fst_tagged)
  then have "set (map fst ?steps) = set (ch_positions challenge)" by (simp only:)
  then have keys: "fst ` set ?m = set (ch_positions challenge)"
    unfolding build_revealed_map_keys by (simp only: set_map)
  have c1: "check_challenged (inst_tiles inst) (int (length path)) ?m (ch_positions challenge)"
    unfolding check_challenged_iff
  proof (intro ballI impI)
    fix i assume i: "i \<in> set (ch_positions challenge)" "i < int (length path)"
    from i(1) keys have "i \<in> fst ` set ?m" by simp
    then have "map_of ?m i \<noteq> None" by (simp add: map_of_eq_None_iff)
    then obtain p t where pt: "map_of ?m i = Some (p, t)" by auto
    then have "(i, p, t) \<in> set ?m" by (rule map_of_SomeD)
    with build_revealed_map_subset have "(i, p, t) \<in> set ?steps" by blast
    with step i(2) have "reveal_ok (inst_tiles inst) p t" by blast
    with pt show "\<exists>p t. map_of ?m i = Some (p, t) \<and> reveal_ok (inst_tiles inst) p t" by blast
  qed
  have c2: "check_revealed (inst_tiles inst) (int (length path)) (ch_positions challenge) ?m"
    unfolding check_revealed_iff
  proof (intro ballI, clarify)
    fix i p t assume e: "(i, p, t) \<in> set ?m" and lt: "i < int (length path)"
    from e build_revealed_map_subset have "(i, p, t) \<in> set ?steps" by blast
    with step lt show "i \<in> set (ch_positions challenge) \<and> reveal_ok (inst_tiles inst) p t"
      by blast
  qed
  from c1 c2 len comm have "verify_response inst challenge ?r"
    by (simp add: verify_response_def)
  with resp show ?thesis by blast
qed

text \<open>
  C1. For every instance produced by \<open>create_instance\<close>, every witness that
  \<open>generate_witness\<close> returns for it (any length, any start point) and every challenge that
  \<open>create_challenge\<close> produces from the instance and the witness's commitment (any number
  of positions, any draws), \<open>respond_to_challenge\<close> returns a response and
  \<open>verify_response\<close> accepts it. \<open>generate_witness\<close> fails to return only when no start is
  given and the instance is empty.
\<close>

theorem protocol_completeness:
  "case generate_witness digest (create_instance hash seed sz) path_length start raw token of
     Inl e \<Rightarrow> start = None \<and> inst_tiles (create_instance hash seed sz) = []
   | Inr w \<Rightarrow>
       (\<exists>r. respond_to_challenge w
               (create_challenge (create_instance hash seed sz) (wit_commitment w) n cid draws)
               = Inr r
             \<and> verify_response (create_instance hash seed sz)
                 (create_challenge (create_instance hash seed sz) (wit_commitment w) n cid draws)
                 r)"
  using generate_witness_cases [of start "create_instance hash seed sz" digest path_length raw token]
proof (elim disjE conjE exE)
  assume "start = None" "inst_tiles (create_instance hash seed sz) = []"
    "generate_witness digest (create_instance hash seed sz) path_length start raw token
       = Inl IndexError"
  then show ?thesis by simp
next
  fix s and w :: Witness
  let ?inst = "create_instance hash seed sz"
  let ?ch = "create_challenge ?inst (wit_commitment w) n cid draws"
  assume w: "generate_witness digest ?inst path_length start raw token = Inr w"
    "wit_path w = protocol_find_path (inst_tiles ?inst) s path_length"
  have "\<exists>r. respond_to_challenge w ?ch = Inr r \<and> verify_response ?inst ?ch r"
  proof (rule honest_response_accepted [where path = "wit_path w"])
    show "\<forall>(p, l) \<in> set (wit_path w). map_of (inst_tiles ?inst) p = Some l"
      using protocol_find_path_valid [of "inst_tiles ?inst" s path_length] w(2) by simp
    show "length (wit_path w) \<le> length (inst_tiles ?inst)"
      using protocol_find_path_length_tiles [of "inst_tiles ?inst" s path_length] w(2) by simp
    show "\<forall>i \<in> set (ch_positions ?ch). 0 \<le> i"
      using create_challenge_nonneg by blast
    show "wit_path w = wit_path w" ..
    show "wit_commitment w = ch_commitment ?ch"
      by (simp add: create_challenge_def Let_def)
  qed
  with w(1) show ?thesis by simp
qed

theorem protocol_completeness_witness:
  "case generate_witness demo_sha256 demo_instance 3 (Some (Point 0 0)) 0 ''nn'' of
     Inl e \<Rightarrow> False
   | Inr w \<Rightarrow>
       wit_path w = [(Point 0 0, ''A''), (Point 0 1, ''D''), (Point 1 0, ''B'')]
       \<and> (\<exists>r. respond_to_challenge w
                 (create_challenge demo_instance (wit_commitment w) 2 ''id'' spread_draws)
                 = Inr r
               \<and> verify_response demo_instance
                   (create_challenge demo_instance (wit_commitment w) 2 ''id'' spread_draws) r)"
  using protocol_completeness [where digest = demo_sha256 and hash = demo_hash8 and seed = 42
      and sz = 2 and path_length = 3 and start = "Some (Point 0 0)" and raw = 0
      and token = "''nn''" and n = 2 and cid = "''id''" and draws = spread_draws,
      folded demo_instance_def]
  by (simp add: generate_witness_def Let_def split_def demo_path)

end
